theory Spec2Isabelle
  imports Main "HOL-Library.Monad_Syntax"
begin

section \<open>The camelcase rule of lib/rules/camelcase.js\<close>

text \<open>
  A shallow embedding of the rule's \<open>create\<close> function: its helpers, the option
  handling and the \<open>Identifier\<close> visitor. JavaScript strings are modelled as
  \<^typ>\<open>string\<close>; numbers that the source uses as offsets (with \<open>-1\<close> for "no match")
  are \<^typ>\<open>int\<close>. A thrown exception is the value \<^term>\<open>None\<close>.
\<close>

subsection \<open>String primitives\<close>

text \<open>
  A character of a string is one of its code units. The method
  \<open>String.prototype.toUpperCase\<close> is a built-in of the language, and every
  function that calls it takes it as the parameter \<open>toUpperCase\<close>: nothing is
  assumed of what it returns.
\<close>

text \<open>
  \<open>indexOf\<close> of strings (for a needle of one character) and of arrays: the first
  position of the element, or \<open>-1\<close>.
\<close>

fun indexOf :: "'a list \<Rightarrow> 'a \<Rightarrow> int" where
  "indexOf [] x = - 1"
| "indexOf (y # ys) x =
     (if y = x then 0 else (let i = indexOf ys x in if i < 0 then - 1 else i + 1))"

text \<open>
  \<open>value.substr(start)\<close> and \<open>value.substr(start, len)\<close>; a negative \<open>start\<close>
  counts from the end of the string.
\<close>

definition substr_from :: "string \<Rightarrow> int \<Rightarrow> string" where
  "substr_from value start =
     (if start < 0 then drop (nat (int (length value) + start)) value
      else drop (nat start) value)"

definition substr :: "string \<Rightarrow> int \<Rightarrow> int \<Rightarrow> string" where
  "substr value start len = take (nat len) (substr_from value start)"

text \<open>\<open>name.replace(/^_+|_+$/g, "")\<close>: the leading and the trailing run of underscores go.\<close>

definition trimUnderscores :: "string \<Rightarrow> string" where
  "trimUnderscores name =
     rev (dropWhile (\<lambda>c. c = CHR ''_'') (rev (dropWhile (\<lambda>c. c = CHR ''_'') name)))"

subsection \<open>Regular expressions\<close>

text \<open>
  A \<open>RegExp\<close> object is a built-in of the language. Its state is the property
  \<open>lastIndex\<close>, which an expression with the flag \<open>g\<close> or \<open>y\<close> reads and
  writes at every call of \<open>exec\<close> and \<open>test\<close>. What the matching does is the
  field \<open>exec_from\<close> of the object: for the \<open>lastIndex\<close> at the call and the
  string, the match (its \<open>index\<close> and its text \<open>match[0]\<close>) or nothing, and
  the \<open>lastIndex\<close> that the call leaves. Nothing is assumed of it. A call is
  modelled by its result together with the object as the call leaves it.
\<close>

record regexp_match =
  index :: nat
  matched :: string

record regexp =
  lastIndex :: nat
  exec_from :: "nat \<Rightarrow> string \<Rightarrow> regexp_match option \<times> nat"

definition exec :: "regexp \<Rightarrow> string \<Rightarrow> regexp_match option \<times> regexp" where
  "exec re value =
     (case exec_from re (lastIndex re) value of
        (match, i) \<Rightarrow> (match, re \<lparr> lastIndex := i \<rparr>))"

definition test :: "regexp \<Rightarrow> string \<Rightarrow> bool \<times> regexp" where
  "test re value = (case exec re value of (match, re') \<Rightarrow> (match \<noteq> None, re'))"

text \<open>An element of an affix or exception array: a string or a \<open>RegExp\<close>.\<close>

datatype matcher = Str string | Re regexp

subsection \<open>Helpers of the rule\<close>

definition isUnderscored :: "(string \<Rightarrow> string) \<Rightarrow> string \<Rightarrow> bool" where
  "isUnderscored toUpperCase name =
     (indexOf name (CHR ''_'') > - 1 \<and> name \<noteq> toUpperCase name)"

definition startAfterStringPrefix :: "string \<Rightarrow> string \<Rightarrow> int" where
  "startAfterStringPrefix value prefix =
     (let start = int (length prefix) in
      if start \<ge> int (length value) then - 1
      else if substr value 0 (int (length prefix)) \<noteq> prefix then - 1
      else start)"

text \<open>
  The two functions on a \<open>RegExp\<close> return their offset and the expression as
  the call of \<open>exec\<close> leaves it.
\<close>

definition startAfterRegExpPrefix :: "string \<Rightarrow> regexp \<Rightarrow> int \<times> regexp" where
  "startAfterRegExpPrefix value prefix =
     (case exec prefix value of
        (match, prefix') \<Rightarrow>
          (case match of
             None \<Rightarrow> - 1
           | Some m \<Rightarrow> if index m \<noteq> 0 then - 1 else int (length (matched m)),
           prefix'))"

definition endBeforeStringSuffix :: "string \<Rightarrow> string \<Rightarrow> int" where
  "endBeforeStringSuffix value suffix =
     (let ends = int (length value) - int (length suffix) in
      if ends \<le> 0 then - 1
      else if substr_from value ends \<noteq> suffix then - 1
      else ends)"

definition endBeforeRegExpSuffix :: "string \<Rightarrow> regexp \<Rightarrow> int \<times> regexp" where
  "endBeforeRegExpSuffix value suffix =
     (case exec suffix value of
        (match, suffix') \<Rightarrow>
          (case match of
             None \<Rightarrow> - 1
           | Some m \<Rightarrow>
               (let ends = int (index m) in
                if ends + int (length (matched m)) \<noteq> int (length value) then - 1
                else ends),
           suffix'))"

text \<open>
  The body of the loops of \<open>removePrefix\<close> and \<open>removeSuffix\<close> up to the test of
  the offset: the \<open>typeof\<close> dispatch on the array element. The result is the
  offset and the element as the body leaves it.
\<close>

definition prefixStart :: "string \<Rightarrow> matcher \<Rightarrow> int \<times> matcher" where
  "prefixStart value prefix =
     (case prefix of
        Str p \<Rightarrow> (startAfterStringPrefix value p, Str p)
      | Re r \<Rightarrow> (case startAfterRegExpPrefix value r of (start, r') \<Rightarrow> (start, Re r')))"

definition suffixEnds :: "string \<Rightarrow> matcher \<Rightarrow> int \<times> matcher" where
  "suffixEnds value suffix =
     (case suffix of
        Str p \<Rightarrow> (endBeforeStringSuffix value p, Str p)
      | Re r \<Rightarrow> (case endBeforeRegExpSuffix value r of (ends, r') \<Rightarrow> (ends, Re r')))"

text \<open>
  The \<open>for\<close> loops with their \<open>break\<close>, as recursion over the array. The
  result is the value returned and the array as the loop leaves it: the
  elements up to the one that ends the loop have been tried, the others not.
\<close>

fun removePrefix :: "string \<Rightarrow> matcher list \<Rightarrow> string \<times> matcher list" where
  "removePrefix value [] = (value, [])"
| "removePrefix value (prefix # allowed) =
     (case prefixStart value prefix of
        (start, prefix') \<Rightarrow>
          if start \<ge> 0 then (substr_from value start, prefix' # allowed)
          else (case removePrefix value allowed of
                  (value', allowed') \<Rightarrow> (value', prefix' # allowed')))"

fun removeSuffix :: "string \<Rightarrow> matcher list \<Rightarrow> string \<times> matcher list" where
  "removeSuffix value [] = (value, [])"
| "removeSuffix value (suffix # allowed) =
     (case suffixEnds value suffix of
        (ends, suffix') \<Rightarrow>
          if ends \<ge> 0 then (substr value 0 ends, suffix' # allowed)
          else (case removeSuffix value allowed of
                  (value', allowed') \<Rightarrow> (value', suffix' # allowed')))"

fun matchExceptions :: "string \<Rightarrow> matcher list \<Rightarrow> bool \<times> matcher list" where
  "matchExceptions value [] = (False, [])"
| "matchExceptions value (exception # allowed) =
     (case (case exception of
              Str e \<Rightarrow> (e = value, Str e)
            | Re r \<Rightarrow> (case test r value of (b, r') \<Rightarrow> (b, Re r'))) of
        (isException, exception') \<Rightarrow>
          if isException then (True, exception' # allowed)
          else (case matchExceptions value allowed of
                  (b, allowed') \<Rightarrow> (b, exception' # allowed')))"

subsection \<open>Options\<close>

text \<open>
  The variables \<open>properties\<close>, \<open>allowedPrefixes\<close>, \<open>allowedSuffixes\<close> and
  \<open>exceptions\<close> that the closures of \<open>create\<close> share. An array that the options
  do not give is \<open>undefined\<close>, here \<^term>\<open>None\<close>.
\<close>

record config =
  properties :: string
  allowedPrefixes :: "matcher list option"
  allowedSuffixes :: "matcher list option"
  exceptions :: "matcher list option"

text \<open>
  \<open>checkableName(name)\<close>: the name returned, and the variables as the call
  leaves them.
\<close>

definition checkableName :: "config \<Rightarrow> string \<Rightarrow> string \<times> config" where
  "checkableName cfg name =
     (let name1 = trimUnderscores name in
      case (case allowedPrefixes cfg of
              None \<Rightarrow> (name1, cfg)
            | Some allowed \<Rightarrow>
                (case removePrefix name1 allowed of
                   (name2, allowed') \<Rightarrow> (name2, cfg \<lparr> allowedPrefixes := Some allowed' \<rparr>))) of
        (name2, cfg1) \<Rightarrow>
          (case allowedSuffixes cfg1 of
             None \<Rightarrow> (name2, cfg1)
           | Some allowed \<Rightarrow>
               (case removeSuffix name2 allowed of
                  (name3, allowed') \<Rightarrow> (name3, cfg1 \<lparr> allowedSuffixes := Some allowed' \<rparr>))))"

text \<open>
  The options object as the rule receives it (\<open>context.options[0] || {}\<close>: an absent
  object has no field). An array element is a string or an ESTree RegExpLiteral
  \<open>{regex: {pattern, flags}}\<close>. The constructor \<open>new RegExp(pattern, flags)\<close> is a
  parameter; it returns \<^term>\<open>None\<close> where the built-in throws a SyntaxError.
\<close>

datatype raw_matcher = RawStr string | RawRegExp string "string option"

record options =
  options_properties :: "string option"
  options_allowedPrefixes :: "raw_matcher list option"
  options_allowedSuffixes :: "raw_matcher list option"
  options_exceptions :: "raw_matcher list option"

type_synonym regexp_ctor = "string \<Rightarrow> string \<Rightarrow> regexp option"

text \<open>The callback of \<open>iv.map\<close>, element after element; a throw ends the map.\<close>

fun processElts :: "regexp_ctor \<Rightarrow> raw_matcher list \<Rightarrow> matcher list option" where
  "processElts new_RegExp [] = Some []"
| "processElts new_RegExp (elt # iv) =
     (case (case elt of
              RawRegExp pattern flags \<Rightarrow>
                map_option Re (new_RegExp pattern (case flags of None \<Rightarrow> [] | Some f \<Rightarrow> f))
            | RawStr str \<Rightarrow> Some (Str str)) of
        None \<Rightarrow> None
      | Some m \<Rightarrow> map_option ((#) m) (processElts new_RegExp iv))"

text \<open>
  The outer \<^term>\<open>None\<close> is the SyntaxError, \<^term>\<open>Some None\<close> the result
  \<open>undefined\<close> for an absent array.
\<close>

definition processArrayOfStringOrRegExp ::
  "regexp_ctor \<Rightarrow> raw_matcher list option \<Rightarrow> matcher list option option" where
  "processArrayOfStringOrRegExp new_RegExp iv =
     (case iv of
        None \<Rightarrow> Some None
      | Some elts \<Rightarrow> map_option Some (processElts new_RegExp elts))"

text \<open>The statements of \<open>create\<close> that resolve the options (lines 289 to 297).\<close>

definition create :: "regexp_ctor \<Rightarrow> options \<Rightarrow> config option" where
  "create new_RegExp opts = do {
     let properties0 = (case options_properties opts of None \<Rightarrow> [] | Some p \<Rightarrow> p);
     prefixes \<leftarrow> processArrayOfStringOrRegExp new_RegExp (options_allowedPrefixes opts);
     suffixes \<leftarrow> processArrayOfStringOrRegExp new_RegExp (options_allowedSuffixes opts);
     excepts \<leftarrow> processArrayOfStringOrRegExp new_RegExp (options_exceptions opts);
     Some \<lparr> properties =
              (if properties0 \<noteq> ''always'' \<and> properties0 \<noteq> ''never'' then ''always''
               else properties0),
            allowedPrefixes = prefixes,
            allowedSuffixes = suffixes,
            exceptions = excepts \<rparr>
   }"

subsection \<open>Syntax nodes\<close>

text \<open>
  The tree is a store of node objects; a node reference is an address, and \<open>===\<close>
  on nodes compares addresses. A node has the fields the rule reads; a field the
  node does not have is \<open>undefined\<close>, here \<^term>\<open>None\<close>. The field \<open>val\<close> is the
  \<open>value\<close> of a Property.
\<close>

type_synonym addr = nat

record node =
  type :: string
  name :: "string option"
  parent :: "addr option"
  object :: "addr option"
  property :: "addr option"
  left :: "addr option"
  right :: "addr option"
  key :: "addr option"
  val :: "addr option"

type_synonym heap = "addr \<rightharpoonup> node"

text \<open>
  Reading a field of the object behind a reference. Reading a field of
  \<open>undefined\<close> throws a TypeError: the result \<^term>\<open>None\<close>.
\<close>

definition deref :: "heap \<Rightarrow> addr option \<Rightarrow> node option" where
  "deref h r = (case r of None \<Rightarrow> None | Some a \<Rightarrow> h a)"

subsection \<open>Reporting\<close>

text \<open>
  The state of one run: the array \<open>reported\<close> and the calls of \<open>context.report\<close>
  made so far, each with its node and its message. The message is the template
  of the call with \<open>{{name}}\<close> replaced by \<open>node.name\<close>, as the reporting
  context, which is not in the rule's file, fills it in.
\<close>

record violation =
  vnode :: addr
  message :: string

record state =
  reported :: "addr list"
  violations :: "violation list"

definition initial :: state where
  "initial = \<lparr> reported = [], violations = [] \<rparr>"

definition camelCaseMessage :: "string \<Rightarrow> string" where
  "camelCaseMessage nm = ''Identifier '' @ [CHR 0x27] @ nm @ [CHR 0x27] @ '' is not in camel case.''"

text \<open>\<open>report(node)\<close>; the second argument is \<open>node.name\<close>, read by the caller.\<close>

definition report :: "addr \<Rightarrow> string \<Rightarrow> state \<Rightarrow> state" where
  "report nd nm s =
     (if indexOf (reported s) nd < 0
      then s \<lparr> reported := reported s @ [nd],
               violations := violations s @ [\<lparr> vnode = nd, message = camelCaseMessage nm \<rparr>] \<rparr>
      else s)"

subsection \<open>The visitor\<close>

text \<open>The test \<open>exceptions && matchExceptions(name, exceptions)\<close> of the visitor.\<close>

definition isExcepted :: "config \<Rightarrow> string \<Rightarrow> bool \<times> config" where
  "isExcepted cfg nm =
     (case exceptions cfg of
        None \<Rightarrow> (False, cfg)
      | Some allowed \<Rightarrow>
          (case matchExceptions nm allowed of
             (b, allowed') \<Rightarrow> (b, cfg \<lparr> exceptions := Some allowed' \<rparr>)))"

text \<open>
  The checkable name of a node name, and whether the visitor takes the name for
  an exception: the first components of what \<open>checkableName\<close> and the test of
  the exceptions after it return.
\<close>

definition checkable :: "config \<Rightarrow> string \<Rightarrow> string" where
  "checkable cfg nodeName = fst (checkableName cfg nodeName)"

definition excepted :: "config \<Rightarrow> string \<Rightarrow> bool" where
  "excepted cfg nodeName =
     (case checkableName cfg nodeName of (nm, cfg1) \<Rightarrow> fst (isExcepted cfg1 nm))"

text \<open>
  \<open>Identifier(node)\<close>, with the state passed explicitly: the variables of the
  configuration, whose regular expressions the calls of \<open>checkableName\<close> and
  \<open>matchExceptions\<close> may change, and the state of the reports. \<open>&&\<close> and
  \<open>||\<close> evaluate their right operand only when needed, so a field is read in
  the model exactly where the source reads it.
\<close>

definition Identifier ::
  "(string \<Rightarrow> string) \<Rightarrow> config \<Rightarrow> heap \<Rightarrow> addr \<Rightarrow> state \<Rightarrow> (config \<times> state) option" where
  "Identifier toUpperCase cfg h nd s = do {
     n \<leftarrow> h nd;
     nodeName \<leftarrow> name n;
     let (nm, cfg1) = checkableName cfg nodeName;
     p \<leftarrow> deref h (parent n);
     let effectiveParent = (if type p = ''MemberExpression'' then parent p else parent n);
     let (isException, cfg2) = isExcepted cfg1 nm;
     if isException then Some (cfg2, s)
     else if type p = ''MemberExpression'' then
       (if properties cfg2 = ''never'' then Some (cfg2, s)
        else do {
          obj \<leftarrow> deref h (object p);
          if type obj = ''Identifier'' \<and> name obj = Some nodeName \<and> isUnderscored toUpperCase nm
          then Some (cfg2, report nd nodeName s)
          else do {
            ep \<leftarrow> deref h effectiveParent;
            if type ep = ''AssignmentExpression'' \<and> isUnderscored toUpperCase nm
            then do {
              r \<leftarrow> deref h (right ep);
              if type r \<noteq> ''MemberExpression'' then Some (cfg2, report nd nodeName s)
              else do {
                l \<leftarrow> deref h (left ep);
                if type l = ''MemberExpression''
                then do {
                  lp \<leftarrow> deref h (property l);
                  if name lp = Some nodeName then Some (cfg2, report nd nodeName s)
                  else Some (cfg2, s)
                }
                else Some (cfg2, s)
              }
            }
            else Some (cfg2, s)
          }
        })
     else if type p = ''Property'' then
       (if properties cfg2 = ''never'' then Some (cfg2, s)
        else do {
          skip \<leftarrow> (case parent p of
                     None \<Rightarrow> Some False
                   | Some g \<Rightarrow> do {
                       gp \<leftarrow> h g;
                       Some (type gp = ''ObjectPattern'' \<and> key p = Some nd \<and> val p \<noteq> Some nd)
                     });
          if skip then Some (cfg2, s)
          else if isUnderscored toUpperCase nm
          then do {
            ep \<leftarrow> deref h effectiveParent;
            if type ep \<noteq> ''CallExpression'' then Some (cfg2, report nd nodeName s)
            else Some (cfg2, s)
          }
          else Some (cfg2, s)
        })
     else if isUnderscored toUpperCase nm
     then do {
       ep \<leftarrow> deref h effectiveParent;
       if type ep \<noteq> ''CallExpression'' then Some (cfg2, report nd nodeName s)
       else Some (cfg2, s)
     }
     else Some (cfg2, s)
   }"

text \<open>
  Modelled from the spec: the driver that walks the tree, which is not in the
  rule's file. It calls the visitor once for every identifier node it reaches,
  in the order of the traversal, and an exception of the visitor ends the run.
  A run is given by the sequence of the nodes reached; a node that is reached
  twice occurs twice. Each visit starts from the configuration and the reports
  that the visit before it left.
\<close>

fun run ::
  "(string \<Rightarrow> string) \<Rightarrow> config \<Rightarrow> heap \<Rightarrow> addr list \<Rightarrow> state \<Rightarrow> (config \<times> state) option" where
  "run toUpperCase cfg h [] s = Some (cfg, s)"
| "run toUpperCase cfg h (nd # nodes) s =
     (case Identifier toUpperCase cfg h nd s of
        None \<Rightarrow> None
      | Some (cfg', s') \<Rightarrow> run toUpperCase cfg' h nodes s')"

text \<open>
  One run of the rule: \<open>create\<close> resolves the options, then the visits follow;
  the result is the reports of the run.
\<close>

definition lint ::
  "(string \<Rightarrow> string) \<Rightarrow> regexp_ctor \<Rightarrow> options \<Rightarrow> heap \<Rightarrow> addr list \<Rightarrow> state option" where
  "lint toUpperCase new_RegExp opts h nodes = do {
     cfg \<leftarrow> create new_RegExp opts;
     map_option snd (run toUpperCase cfg h nodes initial)
   }"

subsection \<open>Programs of the rule's tests\<close>

text \<open>
  The trees of the programs that the properties below are evaluated on, as the
  parser builds them: every node with its \<open>parent\<close>, and the Program node at
  address 0.
\<close>

text \<open>
  The names of these programs are made of ASCII characters. On such a string
  the built-in \<open>toUpperCase\<close> replaces \<open>a\<close>..\<open>z\<close> by \<open>A\<close>..\<open>Z\<close> and keeps
  every other character; the function below does that, and the programs are
  evaluated with it.
\<close>

definition toUpperChar_ascii :: "char \<Rightarrow> char" where
  "toUpperChar_ascii c =
     (case map_of (zip ''abcdefghijklmnopqrstuvwxyz'' ''ABCDEFGHIJKLMNOPQRSTUVWXYZ'') c of
        None \<Rightarrow> c
      | Some u \<Rightarrow> u)"

definition toUpperCase_ascii :: "string \<Rightarrow> string" where
  "toUpperCase_ascii str = map toUpperChar_ascii str"

definition mk_node :: "string \<Rightarrow> addr option \<Rightarrow> node" where
  "mk_node t p = \<lparr> type = t, name = None, parent = p, object = None, property = None,
                   left = None, right = None, key = None, val = None \<rparr>"

definition mk_identifier :: "string \<Rightarrow> addr option \<Rightarrow> node" where
  "mk_identifier nm p = (mk_node ''Identifier'' p) \<lparr> name := Some nm \<rparr>"

text \<open>\<open>nm = 1\<close>; the identifier is node 3.\<close>

definition ast_assign_literal :: "string \<Rightarrow> heap" where
  "ast_assign_literal nm = map_of [
     (0, mk_node ''Program'' None),
     (1, mk_node ''ExpressionStatement'' (Some 0)),
     (2, (mk_node ''AssignmentExpression'' (Some 1)) \<lparr> left := Some 3, right := Some 4 \<rparr>),
     (3, mk_identifier nm (Some 2)),
     (4, mk_node ''Literal'' (Some 2))]"

text \<open>\<open>obj.prop = 1\<close>; the object is node 4, the property node 5.\<close>

definition ast_member_assign_literal :: "string \<Rightarrow> string \<Rightarrow> heap" where
  "ast_member_assign_literal obj prop = map_of [
     (0, mk_node ''Program'' None),
     (1, mk_node ''ExpressionStatement'' (Some 0)),
     (2, (mk_node ''AssignmentExpression'' (Some 1)) \<lparr> left := Some 3, right := Some 6 \<rparr>),
     (3, (mk_node ''MemberExpression'' (Some 2)) \<lparr> object := Some 4, property := Some 5 \<rparr>),
     (4, mk_identifier obj (Some 3)),
     (5, mk_identifier prop (Some 3)),
     (6, mk_node ''Literal'' (Some 2))]"

text \<open>\<open>x = obj.prop\<close>; \<open>x\<close> is node 3, the object node 5, the property node 6.\<close>

definition ast_assign_member_read :: "string \<Rightarrow> string \<Rightarrow> heap" where
  "ast_assign_member_read obj prop = map_of [
     (0, mk_node ''Program'' None),
     (1, mk_node ''ExpressionStatement'' (Some 0)),
     (2, (mk_node ''AssignmentExpression'' (Some 1)) \<lparr> left := Some 3, right := Some 4 \<rparr>),
     (3, mk_identifier ''x'' (Some 2)),
     (4, (mk_node ''MemberExpression'' (Some 2)) \<lparr> object := Some 5, property := Some 6 \<rparr>),
     (5, mk_identifier obj (Some 4)),
     (6, mk_identifier prop (Some 4))]"

text \<open>
  \<open>a.prop1 = b.prop2\<close>; on the left the object is node 4 and the property
  node 5, on the right the object is node 7 and the property node 8.
\<close>

definition ast_member_assign_member :: "string \<Rightarrow> string \<Rightarrow> heap" where
  "ast_member_assign_member prop1 prop2 = map_of [
     (0, mk_node ''Program'' None),
     (1, mk_node ''ExpressionStatement'' (Some 0)),
     (2, (mk_node ''AssignmentExpression'' (Some 1)) \<lparr> left := Some 3, right := Some 6 \<rparr>),
     (3, (mk_node ''MemberExpression'' (Some 2)) \<lparr> object := Some 4, property := Some 5 \<rparr>),
     (4, mk_identifier ''a'' (Some 3)),
     (5, mk_identifier prop1 (Some 3)),
     (6, (mk_node ''MemberExpression'' (Some 2)) \<lparr> object := Some 7, property := Some 8 \<rparr>),
     (7, mk_identifier ''b'' (Some 6)),
     (8, mk_identifier prop2 (Some 6))]"

text \<open>
  \<open>var { k } = query;\<close>: the shorthand property, node 4, has one and the same
  node 5 as its \<open>key\<close> and its \<open>value\<close>.
\<close>

definition ast_pattern_shorthand :: "string \<Rightarrow> heap" where
  "ast_pattern_shorthand k = map_of [
     (0, mk_node ''Program'' None),
     (1, mk_node ''VariableDeclaration'' (Some 0)),
     (2, mk_node ''VariableDeclarator'' (Some 1)),
     (3, mk_node ''ObjectPattern'' (Some 2)),
     (4, (mk_node ''Property'' (Some 3)) \<lparr> key := Some 5, val := Some 5 \<rparr>),
     (5, mk_identifier k (Some 4)),
     (6, mk_identifier ''query'' (Some 2))]"

text \<open>\<open>var { k: v } = query;\<close>: the key is node 5, the value node 7.\<close>

definition ast_pattern_renamed :: "string \<Rightarrow> string \<Rightarrow> heap" where
  "ast_pattern_renamed k v = map_of [
     (0, mk_node ''Program'' None),
     (1, mk_node ''VariableDeclaration'' (Some 0)),
     (2, mk_node ''VariableDeclarator'' (Some 1)),
     (3, mk_node ''ObjectPattern'' (Some 2)),
     (4, (mk_node ''Property'' (Some 3)) \<lparr> key := Some 5, val := Some 7 \<rparr>),
     (5, mk_identifier k (Some 4)),
     (6, mk_identifier ''query'' (Some 2)),
     (7, mk_identifier v (Some 4))]"

text \<open>The configuration of a run without options, and with \<open>properties: "never"\<close>.\<close>

definition config_always :: config where
  "config_always = \<lparr> properties = ''always'', allowedPrefixes = None,
                     allowedSuffixes = None, exceptions = None \<rparr>"

definition config_never :: config where
  "config_never = config_always \<lparr> properties := ''never'' \<rparr>"

definition no_options :: options where
  "no_options = \<lparr> options_properties = None, options_allowedPrefixes = None,
                  options_allowedSuffixes = None, options_exceptions = None \<rparr>"

text \<open>
  A run with \<open>allowedPrefixes: ["opt_"]\<close>, and one whose only prefix is the
  expression below.
\<close>

definition config_opt :: config where
  "config_opt = config_always \<lparr> allowedPrefixes := Some [Str ''opt_''] \<rparr>"

text \<open>
  The expression \<open>/[^]*/\<close>: its leftmost match starts at 0 and takes the whole
  string; without the flags \<open>g\<close> and \<open>y\<close> a call leaves \<open>lastIndex\<close> as it
  is.
\<close>

definition re_everything :: regexp where
  "re_everything =
     \<lparr> lastIndex = 0,
       exec_from = (\<lambda>i value. (Some \<lparr> index = 0, matched = value \<rparr>, i)) \<rparr>"

definition config_everything :: config where
  "config_everything = config_always \<lparr> allowedPrefixes := Some [Re re_everything] \<rparr>"

subsection \<open>The invariant of the reported nodes\<close>

text \<open>
  The nodes of the violations are the array \<open>reported\<close>, and no node is in it
  twice.
\<close>

definition reported_once :: "state \<Rightarrow> bool" where
  "reported_once s = (map vnode (violations s) = reported s \<and> distinct (reported s))"

section \<open>Properties\<close>

lemmas string_defs =
  isUnderscored_def toUpperCase_ascii_def toUpperChar_ascii_def trimUnderscores_def
  substr_def substr_from_def

lemmas affix_defs =
  prefixStart_def suffixEnds_def startAfterStringPrefix_def endBeforeStringSuffix_def
  startAfterRegExpPrefix_def endBeforeRegExpSuffix_def exec_def test_def

lemmas ast_defs =
  mk_node_def mk_identifier_def deref_def initial_def config_always_def config_never_def
  config_opt_def config_everything_def re_everything_def

lemmas witness_defs =
  ast_defs isExcepted_def checkableName_def checkable_def excepted_def string_defs

lemmas eval_defs =
  Identifier_def isExcepted_def ast_defs string_defs affix_defs checkableName_def
  checkable_def excepted_def report_def camelCaseMessage_def

lemma indexOf_ge_minus_one: "indexOf xs x \<ge> - 1"
  by (induction xs) (auto simp: Let_def)

lemma indexOf_found_iff: "(indexOf xs x > - 1) = (x \<in> set xs)"
  by (induction xs) (auto simp: Let_def)

lemma indexOf_missing_iff: "(indexOf xs x < 0) = (x \<notin> set xs)"
  using indexOf_found_iff [of xs x] indexOf_ge_minus_one [of xs x] by auto

subsection \<open>The style test\<close>

text \<open>
  Claim C1. \<open>isUnderscored\<close> holds of a name exactly when the name contains an
  underscore and differs from its upper-case form, whatever the built-in
  returns as that form. So it rejects \<open>FOO_BAR\<close>, which the built-in returns
  unchanged, accepts \<open>foo_bar\<close>, which the built-in changes to \<open>FOO_BAR\<close>, and
  rejects \<open>foo\<close>, which has no underscore.
\<close>

theorem isUnderscored_iff:
  "isUnderscored toUpperCase nm = (CHR ''_'' \<in> set nm \<and> nm \<noteq> toUpperCase nm)
   \<and> (toUpperCase ''FOO_BAR'' = ''FOO_BAR'' \<longrightarrow> \<not> isUnderscored toUpperCase ''FOO_BAR'')
   \<and> (toUpperCase ''foo_bar'' = ''FOO_BAR'' \<longrightarrow> isUnderscored toUpperCase ''foo_bar'')
   \<and> \<not> isUnderscored toUpperCase ''foo''"
proof -
  have "isUnderscored toUpperCase nm = (CHR ''_'' \<in> set nm \<and> nm \<noteq> toUpperCase nm)"
    by (simp add: isUnderscored_def indexOf_found_iff)
  moreover have "\<not> isUnderscored toUpperCase ''FOO_BAR''"
    if "toUpperCase ''FOO_BAR'' = ''FOO_BAR''"
    using that by (simp add: isUnderscored_def)
  moreover have "isUnderscored toUpperCase ''foo_bar''"
    if "toUpperCase ''foo_bar'' = ''FOO_BAR''"
    using that by (simp add: isUnderscored_def)
  moreover have "\<not> isUnderscored toUpperCase ''foo''"
    by (simp add: isUnderscored_def)
  ultimately show ?thesis by blast
qed

theorem isUnderscored_iff_witness:
  "toUpperCase_ascii ''FOO_BAR'' = ''FOO_BAR''
   \<and> \<not> isUnderscored toUpperCase_ascii ''FOO_BAR''
   \<and> toUpperCase_ascii ''foo_bar'' = ''FOO_BAR''
   \<and> isUnderscored toUpperCase_ascii ''foo_bar''
   \<and> \<not> isUnderscored toUpperCase_ascii ''foo''"
proof -
  have upper: "toUpperCase_ascii ''FOO_BAR'' = ''FOO_BAR''"
    "toUpperCase_ascii ''foo_bar'' = ''FOO_BAR''"
    by (simp_all add: toUpperCase_ascii_def toUpperChar_ascii_def)
  with isUnderscored_iff [of toUpperCase_ascii "''foo''"] show ?thesis
    by blast
qed

subsection \<open>Stripping affixes\<close>

lemma removePrefix_find:
  "fst (removePrefix value allowed) =
     (case find (\<lambda>m. fst (prefixStart value m) \<ge> 0) allowed of
        None \<Rightarrow> value
      | Some m \<Rightarrow> substr_from value (fst (prefixStart value m)))"
  by (induction allowed) (simp_all add: case_prod_beta)

lemma removeSuffix_find:
  "fst (removeSuffix value allowed) =
     (case find (\<lambda>m. fst (suffixEnds value m) \<ge> 0) allowed of
        None \<Rightarrow> value
      | Some m \<Rightarrow> substr value 0 (fst (suffixEnds value m)))"
  by (induction allowed) (simp_all add: case_prod_beta)

text \<open>
  Claim C5. \<open>removePrefix\<close> and \<open>removeSuffix\<close> apply the first element of the
  array, in the array's order, whose offset is not negative, and only that one;
  where no element has such an offset the value comes back unchanged. With the
  prefixes \<open>opt_\<close>, \<open>o_\<close> the name \<open>opt_opt_id\<close> becomes \<open>opt_id\<close>.
\<close>

theorem remove_affix_first_match:
  "fst (removePrefix value allowed) =
     (case find (\<lambda>m. fst (prefixStart value m) \<ge> 0) allowed of
        None \<Rightarrow> value
      | Some m \<Rightarrow> substr_from value (fst (prefixStart value m)))
   \<and> fst (removeSuffix value allowed) =
     (case find (\<lambda>m. fst (suffixEnds value m) \<ge> 0) allowed of
        None \<Rightarrow> value
      | Some m \<Rightarrow> substr value 0 (fst (suffixEnds value m)))
   \<and> fst (removePrefix ''opt_opt_id'' [Str ''opt_'', Str ''o_'']) = ''opt_id''
   \<and> fst (removePrefix ''o_opt_id'' [Str ''opt_'', Str ''o_'']) = ''opt_id''
   \<and> fst (removePrefix ''xopt_camelCase'' [Str ''opt_'', Str ''o_'']) = ''xopt_camelCase''
   \<and> fst (removeSuffix ''size_px_ms'' [Str ''_ms'', Str ''_px_ms'']) = ''size_px''"
proof -
  have "fst (removePrefix ''opt_opt_id'' [Str ''opt_'', Str ''o_'']) = ''opt_id''"
    by (simp add: affix_defs string_defs)
  moreover have "fst (removePrefix ''o_opt_id'' [Str ''opt_'', Str ''o_'']) = ''opt_id''"
    by (simp add: affix_defs string_defs)
  moreover have
    "fst (removePrefix ''xopt_camelCase'' [Str ''opt_'', Str ''o_'']) = ''xopt_camelCase''"
    by (simp add: affix_defs string_defs)
  moreover have "fst (removeSuffix ''size_px_ms'' [Str ''_ms'', Str ''_px_ms'']) = ''size_px''"
    by (simp add: affix_defs string_defs)
  ultimately show ?thesis
    using removePrefix_find [of "value" allowed] removeSuffix_find [of "value" allowed]
    by blast
qed

lemma startAfterStringPrefix_char:
  "startAfterStringPrefix value s =
     (if \<exists>rest. rest \<noteq> [] \<and> value = s @ rest then int (length s) else - 1)"
proof (cases "\<exists>rest. rest \<noteq> [] \<and> value = s @ rest")
  case True
  then obtain rest where "rest \<noteq> []" "value = s @ rest" by blast
  then show ?thesis
    by (simp add: startAfterStringPrefix_def substr_def substr_from_def)
next
  case False
  have "startAfterStringPrefix value s = - 1"
  proof (cases "length s < length value")
    case short: True
    have "take (length s) value \<noteq> s"
    proof
      assume eq: "take (length s) value = s"
      have "value = s @ drop (length s) value"
        using append_take_drop_id [of "length s" "value"] eq by simp
      moreover have "drop (length s) value \<noteq> []"
        using short by simp
      ultimately show False using False by blast
    qed
    then show ?thesis
      using short by (simp add: startAfterStringPrefix_def substr_def substr_from_def Let_def)
  next
    case False
    then show ?thesis
      by (simp add: startAfterStringPrefix_def)
  qed
  with False show ?thesis by auto
qed

lemma endBeforeStringSuffix_char:
  "endBeforeStringSuffix value s =
     (if \<exists>rest. rest \<noteq> [] \<and> value = rest @ s then int (length value) - int (length s) else - 1)"
proof (cases "\<exists>rest. rest \<noteq> [] \<and> value = rest @ s")
  case True
  then obtain rest where "rest \<noteq> []" "value = rest @ s" by blast
  then show ?thesis
    by (simp add: endBeforeStringSuffix_def substr_from_def)
next
  case False
  have "endBeforeStringSuffix value s = - 1"
  proof (cases "length s < length value")
    case short: True
    have "drop (length value - length s) value \<noteq> s"
    proof
      assume eq: "drop (length value - length s) value = s"
      have "value = take (length value - length s) value @ s"
        using append_take_drop_id [of "length value - length s" "value"] eq by simp
      moreover have "take (length value - length s) value \<noteq> []"
        using short by auto
      ultimately show False using False by blast
    qed
    moreover have "nat (int (length value) - int (length s)) = length value - length s"
      by simp
    ultimately show ?thesis
      using short by (simp add: endBeforeStringSuffix_def substr_from_def)
  next
    case False
    then show ?thesis
      by (simp add: endBeforeStringSuffix_def)
  qed
  with False show ?thesis by auto
qed

text \<open>
  Claim C6. A string prefix matches only as a prefix of the value that leaves a
  non-empty rest, a string suffix only as a suffix after a non-empty rest; an
  affix at least as long as the value never matches, so an affix equal to the
  whole value does not strip it.
\<close>

theorem literal_affix_proper:
  "startAfterStringPrefix value s =
     (if \<exists>rest. rest \<noteq> [] \<and> value = s @ rest then int (length s) else - 1)
   \<and> endBeforeStringSuffix value s =
     (if \<exists>rest. rest \<noteq> [] \<and> value = rest @ s then int (length value) - int (length s) else - 1)
   \<and> (length value \<le> length s \<longrightarrow>
        startAfterStringPrefix value s = - 1 \<and> endBeforeStringSuffix value s = - 1)
   \<and> removePrefix value [Str value] = (value, [Str value])
   \<and> removeSuffix value [Str value] = (value, [Str value])"
proof -
  have "startAfterStringPrefix value s = - 1 \<and> endBeforeStringSuffix value s = - 1"
    if "length value \<le> length s"
    using that by (simp add: startAfterStringPrefix_def endBeforeStringSuffix_def)
  moreover have "removePrefix value [Str value] = (value, [Str value])"
    by (simp add: prefixStart_def startAfterStringPrefix_def)
  moreover have "removeSuffix value [Str value] = (value, [Str value])"
    by (simp add: suffixEnds_def endBeforeStringSuffix_def)
  ultimately show ?thesis
    using startAfterStringPrefix_char [of "value" s] endBeforeStringSuffix_char [of "value" s]
    by blast
qed

theorem literal_affix_proper_witness:
  "length ''opt_'' \<le> length ''opt_''
   \<and> startAfterStringPrefix ''opt_'' ''opt_'' = - 1
   \<and> endBeforeStringSuffix ''opt_'' ''opt_'' = - 1
   \<and> removePrefix ''opt_'' [Str ''opt_''] = (''opt_'', [Str ''opt_''])"
  using literal_affix_proper [of "''opt_''" "''opt_''"] by simp

subsection \<open>Reporting a node once\<close>

lemma reported_once_initial: "reported_once initial"
  by (simp add: reported_once_def initial_def)

lemma reported_once_report: "reported_once s \<Longrightarrow> reported_once (report nd nm s)"
  by (simp add: reported_once_def report_def indexOf_missing_iff)

lemma report_twice: "report nd nm' (report nd nm s) = report nd nm s"
  by (simp add: report_def indexOf_missing_iff)

lemma properties_checkableName: "properties (snd (checkableName cfg nm)) = properties cfg"
  by (simp add: checkableName_def Let_def case_prod_beta split: option.splits)

lemma properties_isExcepted: "properties (snd (isExcepted cfg nm)) = properties cfg"
  by (simp add: isExcepted_def case_prod_beta split: option.splits)

lemmas Identifier_unfold =
  Identifier_def Let_def case_prod_beta properties_checkableName properties_isExcepted
  checkable_def excepted_def

lemma Identifier_cases:
  "Identifier toUpperCase cfg h nd s = Some (cfg', s') \<Longrightarrow>
   s' = s \<or> (\<exists>n nm. h nd = Some n \<and> name n = Some nm \<and>
                 isUnderscored toUpperCase (checkable cfg nm) \<and> s' = report nd nm s)"
  unfolding Identifier_unfold
  by (auto split: Option.bind_splits if_splits option.splits)

lemma reported_once_Identifier:
  "reported_once s \<Longrightarrow> Identifier toUpperCase cfg h nd s = Some (cfg', s') \<Longrightarrow>
   reported_once s'"
  using Identifier_cases [of toUpperCase cfg h nd s cfg' s'] reported_once_report by auto

lemma reported_once_run:
  "reported_once s \<Longrightarrow> run toUpperCase cfg h nodes s = Some (cfg', s') \<Longrightarrow>
   reported_once s'"
proof (induction nodes arbitrary: cfg s)
  case Nil
  then show ?case by simp
next
  case (Cons nd nodes)
  from Cons.prems(2) obtain cfg1 s1 where
    step: "Identifier toUpperCase cfg h nd s = Some (cfg1, s1)"
    and rest: "run toUpperCase cfg1 h nodes s1 = Some (cfg', s')"
    by (auto split: option.splits)
  from Cons.prems(1) step have "reported_once s1"
    by (rule reported_once_Identifier)
  then show ?case using rest by (rule Cons.IH)
qed

lemma reported_once_fold:
  "reported_once s \<Longrightarrow> reported_once (fold (\<lambda>(a, nm). report a nm) calls s)"
  by (induction calls arbitrary: s) (auto simp: reported_once_report)

lemma distinct_map_filter_le_one:
  "distinct (map f xs) \<Longrightarrow> length (filter (\<lambda>v. f v = a) xs) \<le> 1"
proof (induction xs)
  case Nil
  then show ?case by simp
next
  case (Cons x xs)
  show ?case
  proof (cases "f x = a")
    case True
    from Cons.prems have "f x \<notin> f ` set xs" by simp
    with True have "\<forall>v \<in> set xs. f v \<noteq> a" by blast
    then have "filter (\<lambda>v. f v = a) xs = []" by (simp add: filter_empty_conv)
    with True show ?thesis by simp
  next
    case False
    with Cons show ?thesis by simp
  qed
qed

lemma reported_once_count:
  "reported_once s \<Longrightarrow> length (filter (\<lambda>v. vnode v = nd) (violations s)) \<le> 1"
  by (rule distinct_map_filter_le_one) (simp add: reported_once_def)

text \<open>
  Claim C2. However often \<open>report\<close> is called, and on whatever nodes, at most
  one violation refers to a given node; a second call on a node changes nothing;
  the same holds of the violations of any run of the visitor. The shorthand
  pattern \<open>{ category_id }\<close>, whose identifier is visited as key and as value,
  gives exactly one violation.
\<close>

theorem report_at_most_once:
  "length (filter (\<lambda>v. vnode v = nd)
       (violations (fold (\<lambda>(a, nm). report a nm) calls initial))) \<le> 1
   \<and> report nd nm' (report nd nm s) = report nd nm s
   \<and> (run toUpperCase cfg h nodes initial = Some (cfg', s') \<longrightarrow>
        length (filter (\<lambda>v. vnode v = nd) (violations s')) \<le> 1)
   \<and> run toUpperCase_ascii config_always (ast_pattern_shorthand ''category_id'') [5, 5, 6] initial =
       Some (config_always,
             \<lparr> reported = [5],
               violations = [\<lparr> vnode = 5,
                 message = ''Identifier 'category_id' is not in camel case.'' \<rparr>] \<rparr>)"
proof -
  have "length (filter (\<lambda>v. vnode v = nd)
       (violations (fold (\<lambda>(a, nm). report a nm) calls initial))) \<le> 1"
    by (intro reported_once_count reported_once_fold reported_once_initial)
  moreover have "length (filter (\<lambda>v. vnode v = nd) (violations s')) \<le> 1"
    if "run toUpperCase cfg h nodes initial = Some (cfg', s')"
    using reported_once_run [OF reported_once_initial that] by (rule reported_once_count)
  moreover have
    "run toUpperCase_ascii config_always (ast_pattern_shorthand ''category_id'') [5, 5, 6] initial =
       Some (config_always,
             \<lparr> reported = [5],
               violations = [\<lparr> vnode = 5,
                 message = ''Identifier 'category_id' is not in camel case.'' \<rparr>] \<rparr>)"
    by (simp add: ast_pattern_shorthand_def eval_defs)
  ultimately show ?thesis
    using report_twice [of nd nm' nm s] by blast
qed

theorem report_at_most_once_witness:
  "run toUpperCase_ascii config_always (ast_pattern_shorthand ''category_id'') [5, 5, 6] initial =
     Some (config_always,
           \<lparr> reported = [5],
             violations = [\<lparr> vnode = 5,
               message = ''Identifier 'category_id' is not in camel case.'' \<rparr>] \<rparr>)
   \<and> length (filter (\<lambda>v. vnode v = 5)
        [\<lparr> vnode = 5, message = ''Identifier 'category_id' is not in camel case.'' \<rparr>]) \<le> 1"
  using report_at_most_once
    [where nd = 5 and toUpperCase = toUpperCase_ascii and cfg = config_always
       and h = "ast_pattern_shorthand ''category_id''"
       and nodes = "[5, 5, 6]" and cfg' = config_always
       and s' = "\<lparr> reported = [5], violations = [\<lparr> vnode = 5,
              message = ''Identifier 'category_id' is not in camel case.'' \<rparr>] \<rparr>"]
  by simp

subsection \<open>The property policy\<close>

lemma never_skips:
  assumes "properties cfg = ''never''" "h nd = Some n" "name n = Some nm"
    "deref h (parent n) = Some p" "type p = ''MemberExpression'' \<or> type p = ''Property''"
  shows "map_option snd (Identifier toUpperCase cfg h nd s) = Some s"
  using assms unfolding Identifier_unfold by auto

text \<open>
  Claim C7. Under \<open>properties: "never"\<close> the visitor leaves the reports as they
  are at an identifier whose parent is a MemberExpression or a Property, so
  \<open>obj.foo_bar = 1\<close> has no violation; under \<open>"always"\<close>, which is also what a
  run without options resolves to, it has exactly one, on \<open>foo_bar\<close>.
\<close>

theorem properties_never_skips:
  "(properties cfg = ''never'' \<and> h nd = Some n \<and> name n = Some nm \<and>
    deref h (parent n) = Some p \<and> (type p = ''MemberExpression'' \<or> type p = ''Property'')
      \<longrightarrow> map_option snd (Identifier toUpperCase cfg h nd s) = Some s)
   \<and> run toUpperCase_ascii config_never (ast_member_assign_literal ''obj'' ''foo_bar'') [4, 5]
         initial = Some (config_never, initial)
   \<and> run toUpperCase_ascii config_always (ast_member_assign_literal ''obj'' ''foo_bar'') [4, 5]
         initial =
       Some (config_always,
             \<lparr> reported = [5],
               violations = [\<lparr> vnode = 5,
                 message = ''Identifier 'foo_bar' is not in camel case.'' \<rparr>] \<rparr>)
   \<and> create new_RegExp no_options = Some config_always
   \<and> create new_RegExp (no_options \<lparr> options_properties := Some ''always'' \<rparr>)
       = Some config_always
   \<and> create new_RegExp (no_options \<lparr> options_properties := Some ''never'' \<rparr>)
       = Some config_never"
proof -
  have "run toUpperCase_ascii config_never (ast_member_assign_literal ''obj'' ''foo_bar'') [4, 5]
         initial = Some (config_never, initial)"
    by (simp add: ast_member_assign_literal_def eval_defs)
  moreover have
    "run toUpperCase_ascii config_always (ast_member_assign_literal ''obj'' ''foo_bar'') [4, 5]
         initial =
       Some (config_always,
             \<lparr> reported = [5],
               violations = [\<lparr> vnode = 5,
                 message = ''Identifier 'foo_bar' is not in camel case.'' \<rparr>] \<rparr>)"
    by (simp add: ast_member_assign_literal_def eval_defs)
  moreover have "create new_RegExp no_options = Some config_always"
    by (simp add: create_def no_options_def config_always_def processArrayOfStringOrRegExp_def)
  moreover have "create new_RegExp (no_options \<lparr> options_properties := Some ''always'' \<rparr>)
       = Some config_always"
    by (simp add: create_def no_options_def config_always_def processArrayOfStringOrRegExp_def)
  moreover have "create new_RegExp (no_options \<lparr> options_properties := Some ''never'' \<rparr>)
       = Some config_never"
    by (simp add: create_def no_options_def config_always_def config_never_def
        processArrayOfStringOrRegExp_def)
  ultimately show ?thesis
    using never_skips [of cfg h nd n nm p toUpperCase s] by blast
qed

theorem properties_never_skips_witness:
  "properties config_never = ''never''
   \<and> ast_member_assign_literal ''obj'' ''foo_bar'' 5 = Some (mk_identifier ''foo_bar'' (Some 3))
   \<and> map_option snd
        (Identifier toUpperCase_ascii config_never (ast_member_assign_literal ''obj'' ''foo_bar'')
           5 initial) = Some initial"
proof -
  let ?h = "ast_member_assign_literal ''obj'' ''foo_bar''"
  let ?p = "(mk_node ''MemberExpression'' (Some 2)) \<lparr> object := Some 4, property := Some 5 \<rparr>"
  have a: "properties config_never = ''never''"
    by (simp add: ast_defs)
  have b: "?h 5 = Some (mk_identifier ''foo_bar'' (Some 3))"
    by (simp add: ast_member_assign_literal_def)
  have c: "name (mk_identifier ''foo_bar'' (Some 3)) = Some ''foo_bar''"
    by (simp add: ast_defs)
  have d: "deref ?h (parent (mk_identifier ''foo_bar'' (Some 3))) = Some ?p"
    by (simp add: ast_member_assign_literal_def ast_defs)
  have e: "type ?p = ''MemberExpression'' \<or> type ?p = ''Property''"
    by (simp add: ast_defs)
  from a b c d e
  have "map_option snd (Identifier toUpperCase_ascii config_never ?h 5 initial) = Some initial"
    using properties_never_skips
      [where cfg = config_never and h = ?h and nd = 5
         and n = "mk_identifier ''foo_bar'' (Some 3)" and nm = "''foo_bar''" and p = ?p
         and toUpperCase = toUpperCase_ascii and s = initial]
    by blast
  with a b show ?thesis by blast
qed

subsection \<open>Destructuring patterns\<close>

text \<open>
  Claim C3, as stated, fails. In \<open>var { category_id } = query;\<close> the identifier
  is the key and the value of a Property inside an ObjectPattern, and under
  \<open>"always"\<close> the visitor reports it.
\<close>

theorem shorthand_exempt_counterexample:
  "map_option type (ast_pattern_shorthand ''category_id'' 3) = Some ''ObjectPattern''
   \<and> map_option type (ast_pattern_shorthand ''category_id'' 4) = Some ''Property''
   \<and> map_option parent (ast_pattern_shorthand ''category_id'' 4) = Some (Some 3)
   \<and> map_option key (ast_pattern_shorthand ''category_id'' 4) = Some (Some 5)
   \<and> map_option val (ast_pattern_shorthand ''category_id'' 4) = Some (Some 5)
   \<and> map_option parent (ast_pattern_shorthand ''category_id'' 5) = Some (Some 4)
   \<and> Identifier toUpperCase_ascii config_always (ast_pattern_shorthand ''category_id'') 5 initial =
       Some (config_always,
             \<lparr> reported = [5],
               violations = [\<lparr> vnode = 5,
                 message = ''Identifier 'category_id' is not in camel case.'' \<rparr>] \<rparr>)"
  by (simp add: ast_pattern_shorthand_def eval_defs)

lemma pattern_key_skipped:
  assumes "h nd = Some n" "name n = Some nm" "deref h (parent n) = Some p"
    "type p = ''Property''" "deref h (parent p) = Some gp" "type gp = ''ObjectPattern''"
    "key p = Some nd" "val p \<noteq> Some nd"
  shows "map_option snd (Identifier toUpperCase cfg h nd s) = Some s"
  using assms unfolding Identifier_unfold by (auto simp: deref_def split: option.splits)

lemma property_never_skipped:
  assumes "h nd = Some n" "name n = Some nm" "deref h (parent n) = Some p"
    "type p = ''Property''" "properties cfg = ''never''"
  shows "map_option snd (Identifier toUpperCase cfg h nd s) = Some s"
  using assms unfolding Identifier_unfold by auto

lemma pattern_shorthand_reported:
  assumes "h nd = Some n" "name n = Some nm" "deref h (parent n) = Some p"
    "type p = ''Property''" "deref h (parent p) = Some gp"
    "val p = Some nd" "properties cfg = ''always''"
    "\<not> excepted cfg nm" "isUnderscored toUpperCase (checkable cfg nm)"
  shows "map_option snd (Identifier toUpperCase cfg h nd s) = Some (report nd nm s)"
  using assms unfolding Identifier_unfold by (auto simp: deref_def split: option.splits)

text \<open>
  Claim C3, amended. The key of a Property inside an ObjectPattern that is not
  also the value of that Property (the form \<open>{key: local}\<close>) is never reported,
  whatever the configuration. In the shorthand form, where key and value are the
  same node, the identifier is skipped under \<open>"never"\<close>; under \<open>"always"\<close> it
  is reported when its checkable name is underscored and no exception.
\<close>

theorem pattern_key_exempt:
  assumes "h nd = Some n" "name n = Some nm" "deref h (parent n) = Some p"
    "type p = ''Property''" "deref h (parent p) = Some gp" "type gp = ''ObjectPattern''"
    "key p = Some nd"
  shows "(val p \<noteq> Some nd \<longrightarrow> map_option snd (Identifier toUpperCase cfg h nd s) = Some s)
    \<and> (val p = Some nd \<and> properties cfg = ''never'' \<longrightarrow> map_option snd (Identifier toUpperCase cfg h nd s) = Some s)
    \<and> (val p = Some nd \<and> properties cfg = ''always'' \<and>
        \<not> excepted cfg nm \<and> isUnderscored toUpperCase (checkable cfg nm)
        \<longrightarrow> map_option snd (Identifier toUpperCase cfg h nd s) = Some (report nd nm s))"
  using pattern_key_skipped [OF assms, of toUpperCase cfg s]
    property_never_skipped [OF assms(1-4), of cfg toUpperCase s]
    pattern_shorthand_reported [OF assms(1-5), of cfg toUpperCase s]
  by blast

theorem pattern_key_exempt_witness:
  "map_option snd (Identifier toUpperCase_ascii config_always
       (ast_pattern_renamed ''category_id'' ''category'') 5 initial) = Some initial
   \<and> map_option snd (Identifier toUpperCase_ascii config_never
       (ast_pattern_shorthand ''category_id'') 5 initial) = Some initial
   \<and> map_option snd (Identifier toUpperCase_ascii config_always
       (ast_pattern_shorthand ''category_id'') 5 initial) = Some (report 5 ''category_id'' initial)"
proof -
  let ?r = "ast_pattern_renamed ''category_id'' ''category''"
  let ?s = "ast_pattern_shorthand ''category_id''"
  let ?n = "mk_identifier ''category_id'' (Some 4)"
  let ?pr = "(mk_node ''Property'' (Some 3)) \<lparr> key := Some 5, val := Some 7 \<rparr>"
  let ?ps = "(mk_node ''Property'' (Some 3)) \<lparr> key := Some 5, val := Some 5 \<rparr>"
  let ?gp = "mk_node ''ObjectPattern'' (Some 2)"
  have r: "(val ?pr \<noteq> Some 5 \<longrightarrow>
      map_option snd (Identifier toUpperCase_ascii config_always ?r 5 initial) = Some initial)"
    using pattern_key_exempt
      [where h = ?r and nd = 5 and n = ?n and nm = "''category_id''" and p = ?pr and gp = ?gp
         and toUpperCase = toUpperCase_ascii and cfg = config_always and s = initial]
    by (simp add: ast_pattern_renamed_def ast_defs)
  have s1: "(val ?ps = Some 5 \<and> properties config_never = ''never''
      \<longrightarrow> map_option snd (Identifier toUpperCase_ascii config_never ?s 5 initial) = Some initial)"
    using pattern_key_exempt
      [where h = ?s and nd = 5 and n = ?n and nm = "''category_id''" and p = ?ps and gp = ?gp
         and toUpperCase = toUpperCase_ascii and cfg = config_never and s = initial]
    by (simp add: ast_pattern_shorthand_def ast_defs)
  have s2: "(val ?ps = Some 5 \<and> properties config_always = ''always'' \<and>
        \<not> excepted config_always ''category_id'' \<and>
        isUnderscored toUpperCase_ascii (checkable config_always ''category_id'')
        \<longrightarrow> map_option snd (Identifier toUpperCase_ascii config_always ?s 5 initial)
          = Some (report 5 ''category_id'' initial))"
    using pattern_key_exempt
      [where h = ?s and nd = 5 and n = ?n and nm = "''category_id''" and p = ?ps and gp = ?gp
         and toUpperCase = toUpperCase_ascii and cfg = config_always and s = initial]
    by (simp add: ast_pattern_shorthand_def ast_defs)
  have "val ?pr \<noteq> Some 5" "val ?ps = Some 5" "properties config_never = ''never''"
    "properties config_always = ''always''"
    "\<not> excepted config_always ''category_id''"
    "isUnderscored toUpperCase_ascii (checkable config_always ''category_id'')"
    by (simp_all add: witness_defs)
  with r s1 s2 show ?thesis by blast
qed

subsection \<open>Properties of member expressions\<close>

text \<open>
  Claim C8. The code departs from the claim in \<open>x = b_c.b_c\<close>: the property,
  node 6, is only read, and the left-hand side of the assignment is no member
  expression, yet the visitor reports it. The test that the comment of the
  source calls "Always report underscored object names" compares the name of
  the object with the name of the visited node, not the nodes, and so holds of
  the property too. Beside it are the evaluations where the code does what the
  claim says: the property read in \<open>x = a.b_c\<close> is not reported; the
  assignment target in \<open>a.b_c = 1\<close> is; the property read in \<open>a.b_c = b.b_c\<close>
  is, and the one in \<open>a.bc = b.d_e\<close> is not.
\<close>

theorem plain_read_same_name_reported:
  "map_option type (ast_assign_member_read ''b_c'' ''b_c'' 2) = Some ''AssignmentExpression''
   \<and> map_option left (ast_assign_member_read ''b_c'' ''b_c'' 2) = Some (Some 3)
   \<and> map_option right (ast_assign_member_read ''b_c'' ''b_c'' 2) = Some (Some 4)
   \<and> map_option type (ast_assign_member_read ''b_c'' ''b_c'' 3) = Some ''Identifier''
   \<and> map_option type (ast_assign_member_read ''b_c'' ''b_c'' 4) = Some ''MemberExpression''
   \<and> map_option property (ast_assign_member_read ''b_c'' ''b_c'' 4) = Some (Some 6)
   \<and> Identifier toUpperCase_ascii config_always (ast_assign_member_read ''b_c'' ''b_c'') 6 initial =
       Some (config_always,
        \<lparr> reported = [6],
          violations = [\<lparr> vnode = 6,
            message = ''Identifier 'b_c' is not in camel case.'' \<rparr>] \<rparr>)
   \<and> Identifier toUpperCase_ascii config_always (ast_assign_member_read ''a'' ''b_c'') 6 initial =
       Some (config_always, initial)
   \<and> Identifier toUpperCase_ascii config_always (ast_member_assign_literal ''a'' ''b_c'') 5 initial =
       Some (config_always,
        \<lparr> reported = [5],
          violations = [\<lparr> vnode = 5,
            message = ''Identifier 'b_c' is not in camel case.'' \<rparr>] \<rparr>)
   \<and> Identifier toUpperCase_ascii config_always (ast_member_assign_member ''b_c'' ''b_c'') 8 initial =
       Some (config_always,
        \<lparr> reported = [8],
          violations = [\<lparr> vnode = 8,
            message = ''Identifier 'b_c' is not in camel case.'' \<rparr>] \<rparr>)
   \<and> Identifier toUpperCase_ascii config_always (ast_member_assign_member ''bc'' ''d_e'') 8 initial =
       Some (config_always, initial)"
proof -
  have "Identifier toUpperCase_ascii config_always (ast_assign_member_read ''a'' ''b_c'') 6 initial =
       Some (config_always, initial)"
    by (simp add: ast_assign_member_read_def eval_defs)
  moreover have
    "Identifier toUpperCase_ascii config_always (ast_member_assign_literal ''a'' ''b_c'') 5 initial =
       Some (config_always,
        \<lparr> reported = [5],
          violations = [\<lparr> vnode = 5,
            message = ''Identifier 'b_c' is not in camel case.'' \<rparr>] \<rparr>)"
    by (simp add: ast_member_assign_literal_def eval_defs)
  moreover have
    "Identifier toUpperCase_ascii config_always (ast_member_assign_member ''b_c'' ''b_c'') 8 initial =
       Some (config_always,
        \<lparr> reported = [8],
          violations = [\<lparr> vnode = 8,
            message = ''Identifier 'b_c' is not in camel case.'' \<rparr>] \<rparr>)"
    by (simp add: ast_member_assign_member_def eval_defs)
  moreover have
    "Identifier toUpperCase_ascii config_always (ast_member_assign_member ''bc'' ''d_e'') 8 initial =
       Some (config_always, initial)"
    by (simp add: ast_member_assign_member_def eval_defs)
  moreover have
    "map_option type (ast_assign_member_read ''b_c'' ''b_c'' 2) = Some ''AssignmentExpression''
     \<and> map_option left (ast_assign_member_read ''b_c'' ''b_c'' 2) = Some (Some 3)
     \<and> map_option right (ast_assign_member_read ''b_c'' ''b_c'' 2) = Some (Some 4)
     \<and> map_option type (ast_assign_member_read ''b_c'' ''b_c'' 3) = Some ''Identifier''
     \<and> map_option type (ast_assign_member_read ''b_c'' ''b_c'' 4) = Some ''MemberExpression''
     \<and> map_option property (ast_assign_member_read ''b_c'' ''b_c'' 4) = Some (Some 6)
     \<and> Identifier toUpperCase_ascii config_always (ast_assign_member_read ''b_c'' ''b_c'') 6 initial =
       Some (config_always,
        \<lparr> reported = [6],
          violations = [\<lparr> vnode = 6,
            message = ''Identifier 'b_c' is not in camel case.'' \<rparr>] \<rparr>)"
    by (simp add: ast_assign_member_read_def eval_defs)
  ultimately show ?thesis by blast
qed

subsection \<open>Regular expressions that match the whole name\<close>

lemma removeSuffix_Nil: "fst (removeSuffix [] allowed) = []"
  by (induction allowed) (simp_all add: case_prod_beta substr_def substr_from_def)

lemma regexp_prefix_whole:
  assumes "fst (exec prefix value) = Some \<lparr> index = 0, matched = value \<rparr>"
  shows "fst (startAfterRegExpPrefix value prefix) = int (length value)"
    and "fst (removePrefix value (Re prefix # allowed)) = []"
  using assms
  by (simp_all add: startAfterRegExpPrefix_def prefixStart_def substr_from_def case_prod_beta)

lemma regexp_suffix_whole:
  assumes "fst (exec suffix value) = Some \<lparr> index = 0, matched = value \<rparr>"
  shows "fst (endBeforeRegExpSuffix value suffix) = 0"
    and "fst (removeSuffix value (Re suffix # allowed)) = []"
  using assms
  by (simp_all add: endBeforeRegExpSuffix_def suffixEnds_def substr_def substr_from_def
      case_prod_beta)

lemma checkableName_prefix_whole:
  assumes "allowedPrefixes cfg = Some (Re prefix # allowed)"
    "fst (exec prefix (trimUnderscores nm)) = Some \<lparr> index = 0, matched = trimUnderscores nm \<rparr>"
  shows "checkable cfg nm = []"
proof -
  have strip: "fst (removePrefix (trimUnderscores nm) (Re prefix # allowed)) = []"
    using regexp_prefix_whole(2) [of prefix "trimUnderscores nm" allowed] assms(2) by blast
  show ?thesis
    using assms(1) strip
    by (simp add: checkable_def checkableName_def Let_def case_prod_beta removeSuffix_Nil
        del: removePrefix.simps split: option.splits)
qed

lemma checkableName_suffix_whole:
  assumes "allowedPrefixes cfg = None" "allowedSuffixes cfg = Some (Re suffix # allowed)"
    "fst (exec suffix (trimUnderscores nm)) = Some \<lparr> index = 0, matched = trimUnderscores nm \<rparr>"
  shows "checkable cfg nm = []"
proof -
  have strip: "fst (removeSuffix (trimUnderscores nm) (Re suffix # allowed)) = []"
    using regexp_suffix_whole(2) [of suffix "trimUnderscores nm" allowed] assms(3) by blast
  show ?thesis
    using assms(1,2) strip
    by (simp add: checkable_def checkableName_def Let_def case_prod_beta
        del: removeSuffix.simps)
qed

lemma isUnderscored_Nil: "\<not> isUnderscored toUpperCase []"
  by (simp add: isUnderscored_def)

lemma empty_name_not_reported:
  assumes "checkable cfg nm = []" "h nd = Some n" "name n = Some nm"
  shows "Identifier toUpperCase cfg h nd s = None
    \<or> map_option snd (Identifier toUpperCase cfg h nd s) = Some s"
proof (cases "Identifier toUpperCase cfg h nd s")
  case None
  then show ?thesis by simp
next
  case (Some r)
  then obtain cfg' s' where r: "Identifier toUpperCase cfg h nd s = Some (cfg', s')"
    by (cases r) simp
  from Identifier_cases [OF r] assms isUnderscored_Nil have "s' = s"
    by auto
  with r show ?thesis by simp
qed

text \<open>
  Claim C10. A regular expression whose match starts at 0 and covers the whole
  value strips the value to the empty string, as a prefix and as a suffix, where
  a string equal to the value strips nothing; the checkable name is then empty,
  and the visitor reports no identifier whose checkable name is empty.
\<close>

theorem regexp_affix_strips_whole_name:
  "(fst (exec prefix value) = Some \<lparr> index = 0, matched = value \<rparr> \<longrightarrow>
      fst (startAfterRegExpPrefix value prefix) = int (length value) \<and>
      fst (removePrefix value (Re prefix # allowed)) = [])
   \<and> (fst (exec suffix value) = Some \<lparr> index = 0, matched = value \<rparr> \<longrightarrow>
      fst (endBeforeRegExpSuffix value suffix) = 0 \<and>
      fst (removeSuffix value (Re suffix # allowed)) = [])
   \<and> (allowedPrefixes cfg = Some (Re prefix # allowed) \<and>
      fst (exec prefix (trimUnderscores nm))
        = Some \<lparr> index = 0, matched = trimUnderscores nm \<rparr> \<longrightarrow>
      checkable cfg nm = [])
   \<and> (allowedPrefixes cfg = None \<and> allowedSuffixes cfg = Some (Re suffix # allowed) \<and>
      fst (exec suffix (trimUnderscores nm))
        = Some \<lparr> index = 0, matched = trimUnderscores nm \<rparr> \<longrightarrow>
      checkable cfg nm = [])
   \<and> (checkable cfg nm = [] \<and> h nd = Some n \<and> name n = Some nm \<longrightarrow>
      Identifier toUpperCase cfg h nd s = None \<or>
      map_option snd (Identifier toUpperCase cfg h nd s) = Some s)
   \<and> removePrefix value [Str value] = (value, [Str value])
   \<and> removeSuffix value [Str value] = (value, [Str value])"
proof -
  have "removePrefix value [Str value] = (value, [Str value])"
    by (simp add: prefixStart_def startAfterStringPrefix_def)
  moreover have "removeSuffix value [Str value] = (value, [Str value])"
    by (simp add: suffixEnds_def endBeforeStringSuffix_def)
  ultimately show ?thesis
    using regexp_prefix_whole(1) [of prefix "value"]
      regexp_prefix_whole(2) [of prefix "value" allowed]
      regexp_suffix_whole(1) [of suffix "value"]
      regexp_suffix_whole(2) [of suffix "value" allowed]
      checkableName_prefix_whole [of cfg prefix allowed nm]
      checkableName_suffix_whole [of cfg suffix allowed nm]
      empty_name_not_reported [of cfg nm h nd n toUpperCase s]
    by blast
qed

theorem regexp_affix_strips_whole_name_witness:
  "checkable config_everything ''foo_bar'' = []
   \<and> map_option snd (Identifier toUpperCase_ascii config_everything
        (ast_assign_literal ''foo_bar'') 3 initial) = Some initial
   \<and> map_option snd (Identifier toUpperCase_ascii config_always
        (ast_assign_literal ''foo_bar'') 3 initial) = Some (report 3 ''foo_bar'' initial)"
proof -
  have empty: "checkable config_everything ''foo_bar'' = []"
    using regexp_affix_strips_whole_name
      [where cfg = config_everything and prefix = re_everything and allowed = "[]"
         and nm = "''foo_bar''"]
    by (simp add: ast_defs exec_def)
  have "Identifier toUpperCase_ascii config_everything (ast_assign_literal ''foo_bar'') 3 initial
        = None
      \<or> map_option snd (Identifier toUpperCase_ascii config_everything
           (ast_assign_literal ''foo_bar'') 3 initial) = Some initial"
    using empty regexp_affix_strips_whole_name
      [where cfg = config_everything and nm = "''foo_bar''"
         and h = "ast_assign_literal ''foo_bar''" and nd = 3
         and n = "mk_identifier ''foo_bar'' (Some 2)" and s = initial
         and toUpperCase = toUpperCase_ascii]
    by (simp add: ast_assign_literal_def ast_defs)
  moreover have
    "Identifier toUpperCase_ascii config_everything (ast_assign_literal ''foo_bar'') 3 initial
       \<noteq> None"
    by (simp add: ast_assign_literal_def eval_defs)
  moreover have "map_option snd (Identifier toUpperCase_ascii config_always
        (ast_assign_literal ''foo_bar'') 3 initial) = Some (report 3 ''foo_bar'' initial)"
    by (simp add: ast_assign_literal_def eval_defs)
  ultimately show ?thesis using empty by blast
qed

subsection \<open>Applying \<open>checkableName\<close> twice\<close>

text \<open>
  Claim C4, as stated, fails. With \<open>allowedPrefixes: ["opt_"]\<close> the name
  \<open>opt_opt_id\<close> becomes \<open>opt_id\<close>, and \<open>opt_id\<close> becomes \<open>id\<close>: the second
  application strips the prefix once more.
\<close>

theorem checkableName_idempotent_counterexample:
  "checkableName config_opt ''opt_opt_id'' = (''opt_id'', config_opt)
   \<and> checkableName config_opt ''opt_id'' = (''id'', config_opt)
   \<and> checkable (snd (checkableName config_opt ''opt_opt_id'')) (checkable config_opt ''opt_opt_id'')
       \<noteq> checkable config_opt ''opt_opt_id''"
  by (simp add: checkable_def checkableName_def ast_defs affix_defs string_defs)

lemma dropWhile_rev_head:
  assumes "ys = [] \<or> \<not> P (hd ys)"
  shows "rev (dropWhile P (rev ys)) = [] \<or> \<not> P (hd (rev (dropWhile P (rev ys))))"
proof (cases ys)
  case Nil
  then show ?thesis by simp
next
  case (Cons y ys')
  with assms have "\<not> P y" by simp
  then have "dropWhile P (rev ys' @ [y]) = dropWhile P (rev ys') @ [y]"
    by (simp add: dropWhile_append)
  with Cons \<open>\<not> P y\<close> show ?thesis by simp
qed

lemma trimUnderscores_idem: "trimUnderscores (trimUnderscores nm) = trimUnderscores nm"
proof -
  let ?P = "\<lambda>c. c = CHR ''_''"
  let ?ys = "dropWhile ?P nm"
  let ?t = "rev (dropWhile ?P (rev ?ys))"
  have "?ys = [] \<or> \<not> ?P (hd ?ys)"
    using hd_dropWhile [of ?P nm] by blast
  then have "?t = [] \<or> \<not> ?P (hd ?t)"
    by (rule dropWhile_rev_head)
  then have "dropWhile ?P ?t = ?t"
    by (simp only: dropWhile_eq_self_iff)
  then have "rev (dropWhile ?P (rev (dropWhile ?P ?t))) = ?t"
    by (simp only: rev_rev_ident dropWhile_idem)
  then show ?thesis
    by (simp only: trimUnderscores_def)
qed

lemma checkableName_no_affix:
  assumes "allowedPrefixes cfg = None \<or> allowedPrefixes cfg = Some []"
    and "allowedSuffixes cfg = None \<or> allowedSuffixes cfg = Some []"
  shows "checkableName cfg nm = (trimUnderscores nm, cfg)"
  using assms by (cases cfg) (auto simp: checkableName_def)

lemma removePrefix_none:
  "\<forall>p \<in> set allowed. fst (prefixStart value p) < 0 \<Longrightarrow>
   fst (removePrefix value allowed) = value"
  by (induction allowed) (simp_all add: case_prod_beta)

lemma removeSuffix_none:
  "\<forall>q \<in> set allowed. fst (suffixEnds value q) < 0 \<Longrightarrow>
   fst (removeSuffix value allowed) = value"
  by (induction allowed) (simp_all add: case_prod_beta)

lemma checkableName_stable:
  assumes "trimUnderscores m = m"
    and "\<forall>p \<in> set (case allowedPrefixes cfg of None \<Rightarrow> [] | Some a \<Rightarrow> a).
           fst (prefixStart m p) < 0"
    and "\<forall>q \<in> set (case allowedSuffixes cfg of None \<Rightarrow> [] | Some a \<Rightarrow> a).
           fst (suffixEnds m q) < 0"
  shows "checkable cfg m = m"
  using assms
  by (auto simp: checkable_def checkableName_def Let_def case_prod_beta
      removePrefix_none removeSuffix_none split: option.splits)

text \<open>
  Claim C4, amended. The second application of \<open>checkableName\<close> starts from
  the configuration that the first one leaves. Where no prefix and no suffix is
  configured (the arrays are absent or empty), \<open>checkableName\<close> only trims the
  underscores, and applying it twice gives what applying it once gives. With
  affixes configured the same holds for a name whose checkable name has no
  underscore left at either end and is stripped by none of the configured
  prefixes and suffixes.
\<close>

theorem checkableName_idempotent_when_stable:
  "((allowedPrefixes cfg = None \<or> allowedPrefixes cfg = Some []) \<and>
    (allowedSuffixes cfg = None \<or> allowedSuffixes cfg = Some [])
      \<longrightarrow> checkable (snd (checkableName cfg nm)) (checkable cfg nm) = checkable cfg nm)
   \<and> (trimUnderscores (checkable cfg nm) = checkable cfg nm \<and>
      (\<forall>p \<in> set (case allowedPrefixes (snd (checkableName cfg nm)) of
                     None \<Rightarrow> [] | Some a \<Rightarrow> a).
          fst (prefixStart (checkable cfg nm) p) < 0) \<and>
      (\<forall>q \<in> set (case allowedSuffixes (snd (checkableName cfg nm)) of
                     None \<Rightarrow> [] | Some a \<Rightarrow> a).
          fst (suffixEnds (checkable cfg nm) q) < 0)
      \<longrightarrow> checkable (snd (checkableName cfg nm)) (checkable cfg nm) = checkable cfg nm)"
proof -
  have "checkable (snd (checkableName cfg nm)) (checkable cfg nm) = checkable cfg nm"
    if none: "allowedPrefixes cfg = None \<or> allowedPrefixes cfg = Some []"
      "allowedSuffixes cfg = None \<or> allowedSuffixes cfg = Some []"
  proof -
    have first: "checkableName cfg nm = (trimUnderscores nm, cfg)"
      by (rule checkableName_no_affix [OF none])
    have "checkableName cfg (trimUnderscores nm) = (trimUnderscores (trimUnderscores nm), cfg)"
      by (rule checkableName_no_affix [OF none])
    with first show ?thesis
      by (simp add: checkable_def trimUnderscores_idem)
  qed
  then show ?thesis
    using checkableName_stable [of "checkable cfg nm" "snd (checkableName cfg nm)"] by blast
qed

theorem checkableName_idempotent_when_stable_witness:
  "checkable config_always ''__private_first_name_'' = ''private_first_name''
   \<and> checkable (snd (checkableName config_always ''__private_first_name_''))
        (checkable config_always ''__private_first_name_'')
     = checkable config_always ''__private_first_name_''
   \<and> checkable config_opt ''opt_camelCase'' = ''camelCase''
   \<and> checkable (snd (checkableName config_opt ''opt_camelCase''))
        (checkable config_opt ''opt_camelCase'')
     = checkable config_opt ''opt_camelCase''"
proof -
  have a: "checkable config_always ''__private_first_name_'' = ''private_first_name''"
    by (simp add: checkable_def checkableName_def config_always_def trimUnderscores_def)
  have b: "checkable (snd (checkableName config_always ''__private_first_name_''))
        (checkable config_always ''__private_first_name_'')
     = checkable config_always ''__private_first_name_''"
    using checkableName_idempotent_when_stable [of config_always "''__private_first_name_''"]
    by (simp add: config_always_def)
  have c: "checkableName config_opt ''opt_camelCase'' = (''camelCase'', config_opt)"
    by (simp add: checkableName_def ast_defs affix_defs string_defs)
  then have c': "checkable config_opt ''opt_camelCase'' = ''camelCase''"
    by (simp add: checkable_def)
  have "trimUnderscores ''camelCase'' = ''camelCase''"
    "\<forall>p \<in> set (case allowedPrefixes config_opt of None \<Rightarrow> [] | Some a \<Rightarrow> a).
          fst (prefixStart ''camelCase'' p) < 0"
    "\<forall>q \<in> set (case allowedSuffixes config_opt of None \<Rightarrow> [] | Some a \<Rightarrow> a).
          fst (suffixEnds ''camelCase'' q) < 0"
    by (simp_all add: ast_defs affix_defs string_defs)
  then have d: "checkable (snd (checkableName config_opt ''opt_camelCase''))
        (checkable config_opt ''opt_camelCase'')
     = checkable config_opt ''opt_camelCase''"
    using checkableName_idempotent_when_stable [of config_opt "''opt_camelCase''"] c c'
    by simp
  from a b c' d show ?thesis by blast
qed

subsection \<open>An unknown property policy\<close>

lemma create_policy:
  assumes "p \<noteq> ''always''" "p \<noteq> ''never''"
  shows "create new_RegExp (opts \<lparr> options_properties := Some p \<rparr>)
       = create new_RegExp (opts \<lparr> options_properties := Some ''always'' \<rparr>)"
  using assms by (simp add: create_def)

lemma create_None_iff:
  "(create new_RegExp opts = None) =
     (processArrayOfStringOrRegExp new_RegExp (options_allowedPrefixes opts) = None \<or>
      processArrayOfStringOrRegExp new_RegExp (options_allowedSuffixes opts) = None \<or>
      processArrayOfStringOrRegExp new_RegExp (options_exceptions opts) = None)"
  by (auto simp: create_def Let_def split: Option.bind_splits)

lemma create_properties:
  assumes "options_properties opts = Some p" "p \<noteq> ''always''" "p \<noteq> ''never''"
    "create new_RegExp opts = Some cfg"
  shows "properties cfg = ''always''"
  using assms by (auto simp: create_def Let_def split: Option.bind_splits)

text \<open>
  Claim C9. Options whose \<open>properties\<close> is neither \<open>"always"\<close> nor \<open>"never"\<close>
  resolve exactly as the same options with \<open>"always"\<close> do, and a run with them
  is the run with \<open>"always"\<close>, on every tree and every sequence of visits; the
  resolved policy is \<open>"always"\<close>; resolving fails only where a regular
  expression of the arrays does not compile.
\<close>

theorem invalid_policy_normalised:
  assumes "options_properties opts = Some p" "p \<noteq> ''always''" "p \<noteq> ''never''"
  shows "create new_RegExp opts
           = create new_RegExp (opts \<lparr> options_properties := Some ''always'' \<rparr>)
    \<and> lint toUpperCase new_RegExp opts h nodes
           = lint toUpperCase new_RegExp (opts \<lparr> options_properties := Some ''always'' \<rparr>) h nodes
    \<and> (create new_RegExp opts = Some cfg \<longrightarrow> properties cfg = ''always'')
    \<and> (create new_RegExp opts = None) =
         (processArrayOfStringOrRegExp new_RegExp (options_allowedPrefixes opts) = None \<or>
          processArrayOfStringOrRegExp new_RegExp (options_allowedSuffixes opts) = None \<or>
          processArrayOfStringOrRegExp new_RegExp (options_exceptions opts) = None)"
proof -
  have "opts = opts \<lparr> options_properties := Some p \<rparr>"
    using assms(1) by simp
  then have eq: "create new_RegExp opts
           = create new_RegExp (opts \<lparr> options_properties := Some ''always'' \<rparr>)"
    using create_policy [OF assms(2,3), of new_RegExp opts] by simp
  then have "lint toUpperCase new_RegExp opts h nodes
           = lint toUpperCase new_RegExp (opts \<lparr> options_properties := Some ''always'' \<rparr>) h nodes"
    by (simp only: lint_def)
  with eq show ?thesis
    using create_properties [OF assms, of new_RegExp cfg] create_None_iff [of new_RegExp opts]
    by blast
qed

theorem invalid_policy_normalised_witness:
  "create (\<lambda>pattern flags. None) (no_options \<lparr> options_properties := Some ''sometimes'' \<rparr>)
     = Some config_always
   \<and> lint toUpperCase_ascii (\<lambda>pattern flags. None) (no_options \<lparr> options_properties := Some ''sometimes'' \<rparr>)
        (ast_member_assign_literal ''obj'' ''foo_bar'') [4, 5]
     = lint toUpperCase_ascii (\<lambda>pattern flags. None) (no_options \<lparr> options_properties := Some ''always'' \<rparr>)
        (ast_member_assign_literal ''obj'' ''foo_bar'') [4, 5]
   \<and> lint toUpperCase_ascii (\<lambda>pattern flags. None) (no_options \<lparr> options_properties := Some ''sometimes'' \<rparr>)
        (ast_member_assign_literal ''obj'' ''foo_bar'') [4, 5]
     = Some \<lparr> reported = [5],
              violations = [\<lparr> vnode = 5,
                message = ''Identifier 'foo_bar' is not in camel case.'' \<rparr>] \<rparr>"
proof -
  let ?new = "\<lambda>pattern flags. None :: regexp option"
  let ?opts = "no_options \<lparr> options_properties := Some ''sometimes'' \<rparr>"
  let ?h = "ast_member_assign_literal ''obj'' ''foo_bar''"
  have always: "create ?new (?opts \<lparr> options_properties := Some ''always'' \<rparr>) = Some config_always"
    by (simp add: create_def no_options_def config_always_def processArrayOfStringOrRegExp_def)
  have upd: "?opts \<lparr> options_properties := Some ''always'' \<rparr>
      = no_options \<lparr> options_properties := Some ''always'' \<rparr>"
    by simp
  have hyp: "options_properties ?opts = Some ''sometimes''"
    "''sometimes'' \<noteq> ''always''" "''sometimes'' \<noteq> ''never''"
    by simp_all
  note inst = invalid_policy_normalised
    [OF hyp, where new_RegExp = ?new and toUpperCase = toUpperCase_ascii and h = ?h
       and nodes = "[4, 5]" and cfg = config_always]
  have c: "create ?new ?opts = Some config_always"
    using inst always by simp
  have l: "lint toUpperCase_ascii ?new ?opts ?h [4, 5]
      = lint toUpperCase_ascii ?new (no_options \<lparr> options_properties := Some ''always'' \<rparr>) ?h [4, 5]"
    using inst upd by simp
  have "lint toUpperCase_ascii ?new ?opts ?h [4, 5]
      = map_option snd (run toUpperCase_ascii config_always ?h [4, 5] initial)"
    using c by (simp add: lint_def)
  also have "\<dots> = Some \<lparr> reported = [5],
              violations = [\<lparr> vnode = 5,
                message = ''Identifier 'foo_bar' is not in camel case.'' \<rparr>] \<rparr>"
    by (simp add: ast_member_assign_literal_def eval_defs)
  finally show ?thesis using c l by blast
qed

end
